theory Spec2Isabelle
  imports Main "HOL-Library.Mapping"
begin

section \<open>Values, errors and the framework objects the code consumes\<close>

text \<open>
  The Python values that occur as node ids and attribute values.
\<close>

datatype pyval = PyNone | PyBool bool | PyInt int | PyStr string

text \<open>
  Every exception the modelled code raises, catches or lets through.
  \<open>OtherError\<close> stands for any exception that is neither of the named ones.
\<close>

datatype error =
    NotImplementedError
  | RecursionError
  | TitleDoesNotExist
  | NoReverseMatch
  | OtherError string

text \<open>
  A page of the host framework: \<open>page.get_absolute_url(language=l, fallback=f)\<close>. The first
  argument is the language made active by the enclosing \<open>force_language\<close> block.
\<close>

datatype page = Page (get_absolute_url: "string \<Rightarrow> string \<Rightarrow> bool \<Rightarrow> error + string")

text \<open>
  The object held by the toolbar (\<open>request.toolbar.obj\<close>), any model instance with a
  \<open>get_absolute_url()\<close>; the argument is the language made active by \<open>force_language\<close>.
\<close>

datatype toolbar_obj = ToolbarObj (obj_get_absolute_url: "string \<Rightarrow> error + string")

record toolbar =
  obj :: "toolbar_obj option"

text \<open>
  The request: \<open>current_page\<close> is \<open>None\<close> when the attribute is missing or unset
  (\<open>getattr(request, 'current_page', None)\<close>), \<open>toolbar\<close> is \<open>None\<close> when
  \<open>hasattr(request, 'toolbar')\<close> is false.
\<close>

record request =
  path_info :: string
  current_page :: "page option"
  toolbar :: "toolbar option"

text \<open>The match returned by \<open>resolve\<close>; \<open>url_name\<close> is \<open>None\<close> for an unnamed pattern.\<close>

record view =
  url_name :: "string option"
  namespace :: string
  args :: "pyval list"
  kwargs :: "(string \<times> pyval) list"
  app_name :: "string option"

text \<open>
  The settings and framework functions that \<open>menus/utils.py\<close> imports, taken as parameters:
  \<open>resolve\<close> and \<open>reverse\<close> get the active language as their first argument.
\<close>

record env =
  USE_I18N :: bool
  LANGUAGE_CODE :: string
  get_language_from_request :: "request \<Rightarrow> string"
  hide_untranslated :: "string \<Rightarrow> bool"
  resolve :: "string \<Rightarrow> string \<Rightarrow> error + view"
  reverse :: "string \<Rightarrow> string option \<Rightarrow> pyval list \<Rightarrow> (string \<times> pyval) list
                \<Rightarrow> string option \<Rightarrow> error + string"

section \<open>menus/base.py\<close>

subsection \<open>Menu\<close>

record Menu =
  namespace :: "string option"

text \<open>
  \<open>Menu.__init__\<close>: the class attribute \<open>namespace\<close> is replaced by the class name when it
  is falsy (\<open>None\<close> or the empty string).
\<close>

definition Menu_init :: "string \<Rightarrow> string option \<Rightarrow> Menu" where
  "Menu_init class_name class_namespace =
     \<lparr>Menu.namespace =
        (if class_namespace = None \<or> class_namespace = Some [] then Some class_name
         else class_namespace)\<rparr>"

type_synonym addr = nat

definition get_nodes :: "Menu \<Rightarrow> request \<Rightarrow> error + addr list" where
  "get_nodes self request = Inl NotImplementedError"

subsection \<open>NavigationNode\<close>

text \<open>
  Nodes are objects that refer to each other (\<open>children\<close>, \<open>parent\<close>), so they live in a
  store and a reference is an address. Every reference of a Python program points to an
  object, hence the store is total.
\<close>

record NavigationNode =
  children :: "addr list"
  parent :: "addr option"
  namespace :: "string option"
  title :: string
  url :: string
  node_id :: pyval
  parent_id :: pyval
  parent_namespace :: pyval
  visible :: bool
  attr :: "(string, pyval) mapping"

type_synonym heap = "addr \<Rightarrow> NavigationNode"

text \<open>
  \<open>NavigationNode.__init__\<close>; the argument \<open>attr\<close> is \<open>None\<close> or a dict, and a dict is
  truthy when it is not empty.
\<close>

definition NavigationNode_init ::
  "string \<Rightarrow> string \<Rightarrow> pyval \<Rightarrow> pyval \<Rightarrow> pyval \<Rightarrow> (string, pyval) mapping option \<Rightarrow> bool
     \<Rightarrow> NavigationNode" where
  "NavigationNode_init title' url' id' parent_id' parent_namespace' attr' visible' =
     \<lparr>children = [], parent = None, NavigationNode.namespace = None,
      title = title', url = url', node_id = id', parent_id = parent_id',
      parent_namespace = parent_namespace', visible = visible',
      attr = (case attr' of
                None \<Rightarrow> Mapping.empty
              | Some d \<Rightarrow> if \<not> Mapping.is_empty d then d else Mapping.empty)\<rparr>"

definition get_menu_title :: "NavigationNode \<Rightarrow> string" where
  "get_menu_title self = title self"

text \<open>\<open>self.attr.get(name, None)\<close>\<close>

definition get_attribute :: "NavigationNode \<Rightarrow> string \<Rightarrow> pyval" where
  "get_attribute self name =
     (case Mapping.lookup (attr self) name of None \<Rightarrow> PyNone | Some v \<Rightarrow> v)"

text \<open>
  \<open>get_descendants\<close> calls itself once per level of the tree. The first argument is the
  number of stack frames the interpreter still grants; with none left the call raises
  \<open>RecursionError\<close>, which is what happens on a cyclic \<open>children\<close> structure.
  \<open>get_descendants_loop\<close> is the \<open>for node in self.children\<close> loop with its local list
  \<open>nodes\<close>.
\<close>

fun get_descendants :: "nat \<Rightarrow> heap \<Rightarrow> addr \<Rightarrow> error + addr list"
  and get_descendants_loop :: "nat \<Rightarrow> heap \<Rightarrow> addr list \<Rightarrow> addr list \<Rightarrow> error + addr list"
  where
  "get_descendants 0 h self = Inl RecursionError"
| "get_descendants (Suc d) h self = get_descendants_loop d h (children (h self)) []"
| "get_descendants_loop d h [] nodes = Inr nodes"
| "get_descendants_loop d h (node # rest) nodes =
     (case get_descendants d h node of
        Inl e \<Rightarrow> Inl e
      | Inr below \<Rightarrow> get_descendants_loop d h rest ((nodes @ [node]) @ below))"

text \<open>
  \<open>get_ancestors\<close>: the \<open>while parent.parent is not None\<close> loop. It does not return on a
  cycle of \<open>parent\<close> references, so not returning is the value \<open>None\<close>.
\<close>

partial_function (option) get_ancestors_loop :: "heap \<Rightarrow> addr \<Rightarrow> addr list \<Rightarrow> addr list option"
  where
  "get_ancestors_loop h cur nodes =
     (case parent (h cur) of
        None \<Rightarrow> Some nodes
      | Some p \<Rightarrow> get_ancestors_loop h p (nodes @ [p]))"

definition get_ancestors :: "heap \<Rightarrow> addr \<Rightarrow> addr list option" where
  "get_ancestors h self = get_ancestors_loop h self []"

subsection \<open>Modifier\<close>

datatype Modifier = Modifier

text \<open>
  \<open>modify\<close> is \<open>pass\<close>. The result is the returned value (\<open>None\<close>: no replacement list),
  the \<open>nodes\<close> list after the call and the store after the call.
\<close>

definition modify ::
  "Modifier \<Rightarrow> request \<Rightarrow> addr list \<Rightarrow> string \<Rightarrow> pyval \<Rightarrow> bool \<Rightarrow> bool \<Rightarrow> heap
     \<Rightarrow> addr list option \<times> addr list \<times> heap" where
  "modify self request nodes namespace' root_id post_cut breadcrumb h = (None, nodes, h)"

section \<open>menus/utils.py: DefaultLanguageChanger\<close>

text \<open>
  The changer holds a reference to the request and the memo field \<open>_app_path\<close>. An update
  of the field \<open>request\<close> stands for a mutation of the request object it refers to.
\<close>

record DefaultLanguageChanger =
  request :: request
  app_path_memo :: "string option"

definition DefaultLanguageChanger_init :: "request \<Rightarrow> DefaultLanguageChanger" where
  "DefaultLanguageChanger_init req = \<lparr>request = req, app_path_memo = None\<rparr>"

text \<open>\<open>'/%s/' % lang\<close>\<close>

definition language_root :: "string \<Rightarrow> string" where
  "language_root lang = ''/'' @ lang @ ''/''"

definition get_page_path :: "env \<Rightarrow> DefaultLanguageChanger \<Rightarrow> string \<Rightarrow> error + string" where
  "get_page_path e self lang =
     (case current_page (request self) of
        Some pg \<Rightarrow>
          (case get_absolute_url pg lang lang False of
             Inr u \<Rightarrow> Inr u
           | Inl x \<Rightarrow>
               if x = TitleDoesNotExist \<or> x = NoReverseMatch then
                 (if hide_untranslated e lang \<and> USE_I18N e then Inr (language_root lang)
                  else get_absolute_url pg lang lang True)
               else Inl x)
      | None \<Rightarrow> if USE_I18N e then Inr (language_root lang) else Inr ''/'')"

text \<open>
  The property \<open>app_path\<close>, with the changer after the access. The inner read
  \<open>self.app_path\<close> of line 64 finds the memo already set to \<open>path_info\<close> (line 58) and
  returns it.
\<close>

definition app_path :: "env \<Rightarrow> DefaultLanguageChanger \<Rightarrow> (error + string) \<times> DefaultLanguageChanger"
  where
  "app_path e self =
     (case app_path_memo self of
        Some memo \<Rightarrow> (Inr memo, self)
      | None \<Rightarrow>
          (let self1 = self\<lparr>app_path_memo := Some (path_info (request self))\<rparr>;
               language_code =
                 (if USE_I18N e then get_language_from_request e (request self1)
                  else LANGUAGE_CODE e)
           in case get_page_path e self1 language_code of
                Inl x \<Rightarrow> (Inl x, self1)
              | Inr page_path \<Rightarrow>
                  if page_path \<noteq> [] then
                    (let rest = drop (length page_path) (path_info (request self1))
                     in (Inr rest, self1\<lparr>app_path_memo := Some rest\<rparr>))
                  else (Inr (path_info (request self1)), self1)))"

text \<open>Line 104: \<open>'%s%s' % (self.get_page_path(lang), self.app_path)\<close>\<close>

definition page_path_and_app_path ::
  "env \<Rightarrow> DefaultLanguageChanger \<Rightarrow> string \<Rightarrow> (error + string) \<times> DefaultLanguageChanger" where
  "page_path_and_app_path e self lang =
     (case get_page_path e self lang of
        Inl x \<Rightarrow> (Inl x, self)
      | Inr p \<Rightarrow>
          (case app_path e self of
             (Inl x, self') \<Rightarrow> (Inl x, self')
           | (Inr a, self') \<Rightarrow> (Inr (p @ a), self')))"

text \<open>
  The name given to \<open>reverse\<close>: \<open>view.url_name\<close>, or
  \<open>"%s:%s" % (view.namespace, view_name)\<close> when the namespace is not empty, where
  \<open>%s\<close> prints \<open>None\<close> as the text \<open>None\<close>.
\<close>

definition view_name_of :: "view \<Rightarrow> string option" where
  "view_name_of v =
     (if view.namespace v \<noteq> [] then
        Some (view.namespace v @ '':'' @ (case url_name v of None \<Rightarrow> ''None'' | Some n \<Rightarrow> n))
      else url_name v)"

text \<open>
  \<open>hasattr(self.request, 'toolbar') and self.request.toolbar.obj\<close>: the object of the
  toolbar when both hold, a model instance being truthy.
\<close>

definition toolbar_object :: "request \<Rightarrow> toolbar_obj option" where
  "toolbar_object req = (case toolbar req of None \<Rightarrow> None | Some tb \<Rightarrow> obj tb)"

text \<open>
  \<open>__call__\<close>. The arguments of a view are plain values, none of them a class, so
  \<open>static_stringifier\<close> patches nothing and restores nothing. A bare \<open>except\<close> catches
  every error.
\<close>

definition DefaultLanguageChanger_call ::
  "env \<Rightarrow> DefaultLanguageChanger \<Rightarrow> string \<Rightarrow> (error + string) \<times> DefaultLanguageChanger" where
  "DefaultLanguageChanger_call e self lang =
     (let page_language = get_language_from_request e (request self);
          matched = (case resolve e page_language (path_info (request self)) of
                       Inl x \<Rightarrow> None
                     | Inr v \<Rightarrow> Some v)
      in case toolbar_object (request self) of
           Some ob \<Rightarrow>
             (case obj_get_absolute_url ob lang of
                Inr u \<Rightarrow> (Inr u, self)
              | Inl x \<Rightarrow> page_path_and_app_path e self lang)
         | None \<Rightarrow>
             (case matched of
                Some v \<Rightarrow>
                  if url_name v \<noteq> Some ''pages-details-by-slug'' \<and> url_name v \<noteq> Some ''pages-root''
                  then
                    (case reverse e lang (view_name_of v) (args v) (kwargs v) (app_name v) of
                       Inr u \<Rightarrow> (Inr u, self)
                     | Inl x \<Rightarrow>
                         if x = NoReverseMatch then page_path_and_app_path e self lang
                         else (Inl x, self))
                  else page_path_and_app_path e self lang
              | None \<Rightarrow> page_path_and_app_path e self lang))"

section \<open>The notions the specification speaks of\<close>

text \<open>
  A finite tree of addresses. \<open>shape h t\<close> says that the store \<open>h\<close> holds the tree \<open>t\<close>:
  the \<open>children\<close> list of every node of \<open>t\<close> is the list of the roots of its subtrees.
  Such a finite tree exists below a node exactly when its \<open>children\<close> references are
  acyclic.
\<close>

datatype ntree = NT (root: addr) (subs: "ntree list")

fun shape :: "heap \<Rightarrow> ntree \<Rightarrow> bool" where
  "shape h (NT a ts) = (children (h a) = map root ts \<and> list_all (shape h) ts)"

text \<open>The nodes of a tree in depth-first order, the root first.\<close>

fun preorder :: "ntree \<Rightarrow> addr list" where
  "preorder (NT a ts) = a # concat (map preorder ts)"

text \<open>The number of levels of a tree: the stack frames \<open>get_descendants\<close> needs.\<close>

fun height :: "ntree \<Rightarrow> nat" where
  "height (NT a ts) = Suc (foldr max (map height ts) 0)"

text \<open>Every subtree of a tree, the tree itself first.\<close>

fun subtrees :: "ntree \<Rightarrow> ntree list" where
  "subtrees (NT a ts) = NT a ts # concat (map subtrees ts)"

text \<open>
  \<open>ancestor_chain h a ps\<close>: following \<open>parent\<close> from \<open>a\<close> visits exactly \<open>ps\<close>, the parent
  first, and the last node visited has no parent. Such a finite chain exists exactly when
  the \<open>parent\<close> references above \<open>a\<close> are acyclic.
\<close>

fun ancestor_chain :: "heap \<Rightarrow> addr \<Rightarrow> addr list \<Rightarrow> bool" where
  "ancestor_chain h a [] = (parent (h a) = None)"
| "ancestor_chain h a (p # ps) = (parent (h a) = Some p \<and> ancestor_chain h p ps)"

text \<open>
  The two strategies that \<open>__call__\<close> tries before line 104 produce no URL: the toolbar
  holds an object and its \<open>get_absolute_url()\<close> raises, or the toolbar holds none and the
  path does not resolve, or resolves to one of the two reserved view names, or \<open>reverse\<close>
  raises \<open>NoReverseMatch\<close>.
\<close>

definition no_strategy_url :: "env \<Rightarrow> DefaultLanguageChanger \<Rightarrow> string \<Rightarrow> bool" where
  "no_strategy_url e self lang =
     (case toolbar_object (request self) of
        Some ob \<Rightarrow> isl (obj_get_absolute_url ob lang)
      | None \<Rightarrow>
          (case resolve e (get_language_from_request e (request self)) (path_info (request self)) of
             Inl x \<Rightarrow> True
           | Inr v \<Rightarrow>
               url_name v = Some ''pages-details-by-slug'' \<or> url_name v = Some ''pages-root'' \<or>
               reverse e lang (view_name_of v) (args v) (kwargs v) (app_name v) = Inl NoReverseMatch))"

text \<open>
  The language whose page path \<open>app_path\<close> strips: \<open>get_language_from_request(request)\<close>
  under \<open>USE_I18N\<close>, \<open>LANGUAGE_CODE\<close> otherwise.
\<close>

definition current_language_code :: "env \<Rightarrow> DefaultLanguageChanger \<Rightarrow> string" where
  "current_language_code e self =
     (if USE_I18N e then get_language_from_request e (request self) else LANGUAGE_CODE e)"

text \<open>
  Line 76 runs for the language \<open>l\<close>: the exact lookup of the page raises one of the two
  errors caught at line 73 and the test of line 74 fails.
\<close>

definition fallback_lookup_runs :: "env \<Rightarrow> page \<Rightarrow> string \<Rightarrow> bool" where
  "fallback_lookup_runs e pg l =
     ((get_absolute_url pg l l False = Inl TitleDoesNotExist \<or>
       get_absolute_url pg l l False = Inl NoReverseMatch) \<and>
      \<not> (hide_untranslated e l \<and> USE_I18N e))"

text \<open>
  Line 76 runs for the language \<open>l\<close> on the current page and raises \<open>x\<close>.
\<close>

definition line_76_raises :: "env \<Rightarrow> DefaultLanguageChanger \<Rightarrow> string \<Rightarrow> error \<Rightarrow> bool" where
  "line_76_raises e self l x =
     (case current_page (request self) of
        None \<Rightarrow> False
      | Some pg \<Rightarrow> fallback_lookup_runs e pg l \<and> get_absolute_url pg l l True = Inl x)"

text \<open>
  The exact lookup of line 72 raises \<open>x\<close> for the language \<open>l\<close>, and \<open>x\<close> is not one of the
  two errors that line 73 catches.
\<close>

definition line_72_raises_uncaught :: "DefaultLanguageChanger \<Rightarrow> string \<Rightarrow> error \<Rightarrow> bool" where
  "line_72_raises_uncaught self l x =
     (case current_page (request self) of
        None \<Rightarrow> False
      | Some pg \<Rightarrow>
          get_absolute_url pg l l False = Inl x \<and> x \<noteq> TitleDoesNotExist \<and> x \<noteq> NoReverseMatch)"

text \<open>
  The \<open>reverse\<close> of line 101 runs (no toolbar object, the path resolves to a view whose name
  is not reserved) and raises \<open>x\<close>, which is not the \<open>NoReverseMatch\<close> that line 102 catches.
\<close>

definition line_101_raises_uncaught ::
  "env \<Rightarrow> DefaultLanguageChanger \<Rightarrow> string \<Rightarrow> error \<Rightarrow> bool" where
  "line_101_raises_uncaught e self lang x =
     (x \<noteq> NoReverseMatch \<and> toolbar_object (request self) = None \<and>
      (case resolve e (get_language_from_request e (request self)) (path_info (request self)) of
         Inl y \<Rightarrow> False
       | Inr v \<Rightarrow>
           url_name v \<noteq> Some ''pages-details-by-slug'' \<and> url_name v \<noteq> Some ''pages-root'' \<and>
           reverse e lang (view_name_of v) (args v) (kwargs v) (app_name v) = Inl x))"

text \<open>
  The places where an error is raised and not caught during a call: line 104 is reached
  and \<open>get_page_path\<close> raises for the target language, or it returns and \<open>app_path\<close>, not
  yet stored, makes it raise for the current language; or line 101 raises.
\<close>

definition call_raises :: "env \<Rightarrow> DefaultLanguageChanger \<Rightarrow> string \<Rightarrow> error \<Rightarrow> bool" where
  "call_raises e self lang x =
     ((no_strategy_url e self lang \<and>
       (line_76_raises e self lang x \<or> line_72_raises_uncaught self lang x \<or>
        (\<not> isl (get_page_path e self lang) \<and> app_path_memo self = None \<and>
         (line_76_raises e self (current_language_code e self) x \<or>
          line_72_raises_uncaught self (current_language_code e self) x)))) \<or>
      line_101_raises_uncaught e self lang x)"

section \<open>Example data\<close>

text \<open>A node as a menu builds it, then linked by setting \<open>children\<close> and \<open>parent\<close>.\<close>

definition linked :: "addr list \<Rightarrow> addr option \<Rightarrow> NavigationNode" where
  "linked cs p =
     (NavigationNode_init ''node'' ''/node/'' PyNone PyNone PyNone None True)
       \<lparr>children := cs, parent := p\<rparr>"

text \<open>Node 0 has the children 1 and 2, node 1 has the child 3.\<close>

definition h_tree :: heap where
  "h_tree a =
     (if a = 0 then linked [1, 2] None
      else if a = 1 then linked [3] (Some 0)
      else if a = 2 then linked [] (Some 0)
      else if a = 3 then linked [] (Some 1)
      else linked [] None)"

definition t_tree :: ntree where
  "t_tree = NT 0 [NT 1 [NT 3 []], NT 2 []]"

text \<open>Node 0 is the parent of the nodes 1, 2 and 3.\<close>

definition h_star :: heap where
  "h_star a = (if a = 0 then linked [1, 2, 3] None else linked [] (Some 0))"

text \<open>Node 0 is its own child and its own parent.\<close>

definition h_cycle :: heap where
  "h_cycle a = linked [0] (Some 0)"

definition attr_example :: "(string, pyval) mapping" where
  "attr_example = Mapping.update ''soft_root'' (PyStr []) (Mapping.update ''level'' (PyInt 0) Mapping.empty)"

definition node_example :: NavigationNode where
  "node_example = NavigationNode_init ''Home'' ''/'' (PyInt 1) PyNone PyNone (Some attr_example) True"

text \<open>A page with a title in English and in German.\<close>

definition page_translated :: page where
  "page_translated =
     Page (\<lambda>active l fb.
       if l = ''de'' then Inr ''/de/seite/''
       else if l = ''en'' then Inr ''/en/page/''
       else Inl TitleDoesNotExist)"

text \<open>A page with an English title only: the exact lookup of another language raises.\<close>

definition page_untranslated :: page where
  "page_untranslated =
     Page (\<lambda>active l fb.
       if l = ''en'' then Inr ''/en/page/''
       else if fb then Inr (''/'' @ active @ ''/page/'')
       else Inl TitleDoesNotExist)"

text \<open>
  A page of a site without language prefixes that has a German title only: the exact lookup
  of another language raises, the lookup with fallback gives the German URL.
\<close>

definition page_german_only :: page where
  "page_german_only =
     Page (\<lambda>active l fb. if l = ''de'' \<or> fb then Inr ''/seite/'' else Inl TitleDoesNotExist)"

text \<open>A page whose URL pattern is not in the URL configuration: every lookup raises.\<close>

definition page_unroutable :: page where
  "page_unroutable = Page (\<lambda>active l fb. Inl NoReverseMatch)"

definition view_product :: view where
  "view_product =
     \<lparr>url_name = Some ''product_view'', view.namespace = ''shop'', args = [PyInt 7],
      kwargs = [], app_name = Some ''shop''\<rparr>"

definition view_page :: view where
  "view_page =
     \<lparr>url_name = Some ''pages-details-by-slug'', view.namespace = [], args = [],
      kwargs = [(''slug'', PyStr ''page'')], app_name = None\<rparr>"

text \<open>
  A site in English with \<open>USE_I18N\<close> on that hides untranslated pages; no path resolves
  and no name reverses.
\<close>

definition env_plain :: env where
  "env_plain =
     \<lparr>USE_I18N = True, LANGUAGE_CODE = ''en'',
      get_language_from_request = (\<lambda>req. ''en''),
      hide_untranslated = (\<lambda>l. True),
      resolve = (\<lambda>active path. Inl (OtherError ''Resolver404'')),
      reverse = (\<lambda>active name ar kw app. Inl NoReverseMatch)\<rparr>"

text \<open>The same site with a shop whose product view resolves and reverses.\<close>

definition env_shop :: env where
  "env_shop =
     env_plain
       \<lparr>resolve := (\<lambda>active path. Inr view_product),
        reverse := (\<lambda>active name ar kw app.
          if name = Some ''shop:product_view'' then Inr (''/'' @ active @ ''/shop/7/'')
          else Inl NoReverseMatch)\<rparr>"

text \<open>The same site where every path is a page of the content-management system.\<close>

definition env_pages :: env where
  "env_pages = env_plain\<lparr>resolve := (\<lambda>active path. Inr view_page)\<rparr>"

definition req_page :: "page \<Rightarrow> string \<Rightarrow> request" where
  "req_page pg path = \<lparr>path_info = path, current_page = Some pg, toolbar = None\<rparr>"

text \<open>A request of the shop: no current page, the toolbar holds the product shown.\<close>

definition req_product :: request where
  "req_product =
     \<lparr>path_info = ''/en/shop/7/'', current_page = None,
      toolbar = Some \<lparr>obj = Some (ToolbarObj (\<lambda>active. Inr (''/'' @ active @ ''/products/7/'')))\<rparr>\<rparr>"

text \<open>The same request without a toolbar.\<close>

definition req_shop :: request where
  "req_shop = \<lparr>path_info = ''/en/shop/7/'', current_page = None, toolbar = None\<rparr>"

text \<open>The same site with \<open>USE_I18N\<close> off: URLs carry no language prefix.\<close>

definition env_no_i18n :: env where
  "env_no_i18n = env_plain\<lparr>USE_I18N := False\<rparr>"

text \<open>The same site showing untranslated pages in their fallback language.\<close>

definition env_show :: env where
  "env_show = env_plain\<lparr>hide_untranslated := (\<lambda>l. False)\<rparr>"

text \<open>
  The site that hides untranslated pages, with a shop whose product view resolves but does
  not reverse.
\<close>

definition env_unreversible :: env where
  "env_unreversible = env_plain\<lparr>resolve := (\<lambda>active path. Inr view_product)\<rparr>"


section \<open>Properties of menus/base.py\<close>

subsection \<open>Menu and Modifier\<close>

text \<open>
  Claim C7. \<open>get_nodes\<close> of the base class \<open>Menu\<close> raises \<open>NotImplementedError\<close>, whatever
  the instance and the request are.
\<close>

theorem get_nodes_not_implemented:
  "get_nodes self req = Inl NotImplementedError \<and>
   get_nodes (Menu_init ''Menu'' None) req = Inl NotImplementedError"
  by (simp add: get_nodes_def)

text \<open>
  Claim C9. \<open>modify\<close> of the base class \<open>Modifier\<close> does nothing: it returns \<open>None\<close>, so
  there is no replacement list, and it leaves the \<open>nodes\<close> list and every node of the store
  as they were.
\<close>

theorem modify_is_noop:
  "modify self req nodes ns root_id post_cut breadcrumb h = (None, nodes, h)"
  by (simp add: modify_def)

subsection \<open>get\_attribute\<close>

lemma is_empty_lookup: "Mapping.is_empty d \<Longrightarrow> Mapping.lookup d k = None"
  by (auto simp: Mapping.is_empty_def keys_dom_lookup)

lemma attr_init_lookup:
  "Mapping.lookup (attr (NavigationNode_init t u i p pn (Some d) vis)) k = Mapping.lookup d k"
  by (simp add: NavigationNode_init_def is_empty_lookup)

text \<open>
  Claim C8. \<open>get_attribute(name)\<close> is \<open>None\<close> when the attribute bag has no such key and
  the stored value otherwise, whatever that value is (the empty string and zero included);
  this holds for the bag a node is constructed with, too.
\<close>

theorem get_attribute_stored_or_none:
  "(Mapping.lookup (attr n) name = None \<longrightarrow> get_attribute n name = PyNone) \<and>
   (Mapping.lookup (attr n) name = Some v \<longrightarrow> get_attribute n name = v) \<and>
   get_attribute (NavigationNode_init t u i p pn None vis) name = PyNone \<and>
   (Mapping.lookup d name = None \<longrightarrow>
      get_attribute (NavigationNode_init t u i p pn (Some d) vis) name = PyNone) \<and>
   (Mapping.lookup d name = Some v \<longrightarrow>
      get_attribute (NavigationNode_init t u i p pn (Some d) vis) name = v)"
  by (simp add: get_attribute_def attr_init_lookup) (simp add: NavigationNode_init_def)

theorem get_attribute_stored_or_none_witness:
  "Mapping.lookup attr_example ''soft_root'' = Some (PyStr []) \<and>
   get_attribute node_example ''soft_root'' = PyStr [] \<and>
   Mapping.lookup attr_example ''level'' = Some (PyInt 0) \<and>
   get_attribute node_example ''level'' = PyInt 0 \<and>
   Mapping.lookup attr_example ''reverse_id'' = None \<and>
   get_attribute node_example ''reverse_id'' = PyNone"
proof -
  have l: "Mapping.lookup attr_example ''soft_root'' = Some (PyStr [])"
    "Mapping.lookup attr_example ''level'' = Some (PyInt 0)"
    "Mapping.lookup attr_example ''reverse_id'' = None"
    by (simp_all add: attr_example_def)
  show ?thesis
    using l
      get_attribute_stored_or_none [where d = attr_example and name = "''soft_root''"
        and v = "PyStr []" and t = "''Home''" and u = "''/''" and i = "PyInt 1" and p = PyNone
        and pn = PyNone and vis = True]
      get_attribute_stored_or_none [where d = attr_example and name = "''level''"
        and v = "PyInt 0" and t = "''Home''" and u = "''/''" and i = "PyInt 1" and p = PyNone
        and pn = PyNone and vis = True]
      get_attribute_stored_or_none [where d = attr_example and name = "''reverse_id''"
        and t = "''Home''" and u = "''/''" and i = "PyInt 1" and p = PyNone
        and pn = PyNone and vis = True]
    by (simp add: node_example_def)
qed

subsection \<open>get\_descendants\<close>

lemma height_mem: "t \<in> set ts \<Longrightarrow> height t \<le> foldr max (map height ts) 0"
  by (induction ts) auto

lemma preorder_subs: "preorder t = root t # concat (map preorder (subs t))"
  by (cases t) simp

text \<open>The loop over the children appends, for each child, the child and what is below it.\<close>

lemma loop_trees:
  "\<forall>t\<in>set ts. get_descendants d h (root t) = Inr (tl (preorder t)) \<Longrightarrow>
   get_descendants_loop d h (map root ts) nodes = Inr (nodes @ concat (map preorder ts))"
proof (induction ts arbitrary: nodes)
  case Nil
  then show ?case by simp
next
  case (Cons t ts)
  then show ?case by (simp add: preorder_subs [of t])
qed

lemma get_descendants_shape:
  "shape h t \<Longrightarrow> height t \<le> d \<Longrightarrow> get_descendants d h (root t) = Inr (tl (preorder t))"
proof (induction t arbitrary: d)
  case (NT a ts)
  from NT.prems(2) obtain d' where d: "d = Suc d'" and hd: "foldr max (map height ts) 0 \<le> d'"
    by (cases d) auto
  have "\<forall>t\<in>set ts. get_descendants d' h (root t) = Inr (tl (preorder t))"
  proof
    fix t assume t: "t \<in> set ts"
    with NT.prems(1) have "shape h t" by (simp add: list_all_iff)
    moreover from t hd have "height t \<le> d'" using height_mem [of t ts] by simp
    ultimately show "get_descendants d' h (root t) = Inr (tl (preorder t))"
      using NT.IH t by blast
  qed
  then have "get_descendants_loop d' h (map root ts) [] = Inr ([] @ concat (map preorder ts))"
    by (rule loop_trees)
  with NT.prems(1) show ?case by (simp add: d)
qed

lemma preorder_subtrees: "preorder t = map root (subtrees t)"
  by (induction t) (simp add: map_concat comp_def cong: map_cong)

lemma subtrees_shape: "shape h t \<Longrightarrow> s \<in> set (subtrees t) \<Longrightarrow> shape h s"
  by (induction t) (auto simp: list_all_iff)

lemma subtrees_size: "s \<in> set (subtrees t) \<Longrightarrow> size s \<le> size t"
proof (induction t)
  case (NT a ts)
  show ?case
  proof (cases "s = NT a ts")
    case True
    then show ?thesis by simp
  next
    case False
    with NT.prems obtain c where c: "c \<in> set ts" "s \<in> set (subtrees c)" by auto
    then have "size s \<le> size c" using NT.IH by blast
    moreover have "size c < size (NT a ts)"
      using c(1) by (simp add: less_Suc_eq_le size_list_estimation')
    ultimately show ?thesis by simp
  qed
qed

text \<open>A store holds at most one tree below a node.\<close>

lemma shape_unique: "shape h t \<Longrightarrow> shape h t' \<Longrightarrow> root t = root t' \<Longrightarrow> t = t'"
proof (induction t arbitrary: t')
  case (NT a ts)
  obtain a' ts' where t': "t' = NT a' ts'" by (cases t')
  with NT.prems have a: "a' = a" and m: "map root ts = map root ts'"
    and s: "list_all (shape h) ts" "list_all (shape h) ts'" by auto
  from m have len: "length ts = length ts'" by (rule map_eq_imp_length_eq)
  have "ts = ts'"
  proof (rule nth_equalityI [OF len])
    fix i assume i: "i < length ts"
    then have "ts ! i \<in> set ts" by simp
    moreover have "shape h (ts ! i)" "shape h (ts' ! i)"
      using s i len by (simp_all add: list_all_length)
    moreover have "root (ts ! i) = root (ts' ! i)"
      using m i len by (metis nth_map)
    ultimately show "ts ! i = ts' ! i" using NT.IH by blast
  qed
  with t' a show ?case by simp
qed

text \<open>Hence the root of a tree held by a store is not below itself.\<close>

lemma root_not_below:
  assumes "shape h t"
  shows "root t \<notin> set (tl (preorder t))"
proof
  assume "root t \<in> set (tl (preorder t))"
  then obtain c s where c: "c \<in> set (subs t)" and s: "s \<in> set (subtrees c)"
    and r: "root s = root t"
    by (cases t) (auto simp: preorder_subtrees)
  have "c \<in> set (subtrees c)" by (cases c) simp
  with c have ct1: "c \<in> set (subtrees t)" by (cases t) auto
  from c have ct2: "size c < size t"
    by (cases t) (simp add: less_Suc_eq_le size_list_estimation')
  from assms ct1 have "shape h c" by (rule subtrees_shape)
  then have "shape h s" using s by (rule subtrees_shape)
  then have "s = t" using assms r by (rule shape_unique)
  moreover have "size s \<le> size c" using s by (rule subtrees_size)
  ultimately show False using ct2 by simp
qed

text \<open>
  Acyclic \<open>children\<close> references within a finite set of nodes give every node of the set a
  finite tree that the store holds.
\<close>

lemma acyclic_children_shape:
  assumes fin: "finite N"
    and closed: "\<And>x c. x \<in> N \<Longrightarrow> c \<in> set (children (h x)) \<Longrightarrow> c \<in> N"
    and acyc: "acyclic {(c, x). x \<in> N \<and> c \<in> set (children (h x))}"
    and a: "a \<in> N"
  shows "\<exists>t. shape h t \<and> root t = a"
proof -
  let ?r = "{(c, x). x \<in> N \<and> c \<in> set (children (h x))}"
  have "?r \<subseteq> N \<times> N" using closed by auto
  then have "finite ?r" using fin by (meson finite_SigmaI finite_subset)
  then have "wf ?r" using acyc by (simp add: finite_acyclic_wf)
  then show ?thesis using a
  proof (induction a rule: wf_induct_rule)
    case (less x)
    have "\<forall>c\<in>set (children (h x)). \<exists>t. shape h t \<and> root t = c"
      using less closed by auto
    then have "\<exists>f. \<forall>c\<in>set (children (h x)). shape h (f c) \<and> root (f c) = c"
      by (rule bchoice)
    then obtain f where f: "\<And>c. c \<in> set (children (h x)) \<Longrightarrow> shape h (f c) \<and> root (f c) = c"
      by blast
    have "shape h (NT x (map f (children (h x))))"
      using f by (simp add: list_all_iff comp_def cong: map_cong)
    then show ?case by (intro exI [of _ "NT x (map f (children (h x)))"]) simp
  qed
qed

text \<open>On a cycle of \<open>children\<close> references every recursion depth is used up.\<close>

lemma get_descendants_cycle: "get_descendants d h_cycle 0 = Inl RecursionError"
  by (induction d) (simp_all add: h_cycle_def linked_def)

lemma get_descendants_star:
  assumes "children (h r) = cs" and "\<forall>c\<in>set cs. children (h c) = []"
  shows "get_descendants (Suc (Suc d)) h r = Inr cs"
proof -
  have "shape h (NT r (map (\<lambda>c. NT c []) cs))"
    using assms by (simp add: list_all_iff comp_def)
  moreover have "height (NT r (map (\<lambda>c. NT c []) cs)) \<le> Suc (Suc d)"
    by (induction cs) simp_all
  ultimately have "get_descendants (Suc (Suc d)) h (root (NT r (map (\<lambda>c. NT c []) cs)))
      = Inr (tl (preorder (NT r (map (\<lambda>c. NT c []) cs))))"
    by (rule get_descendants_shape)
  moreover have "concat (map (preorder \<circ> (\<lambda>c. NT c [])) cs) = cs"
    by (induction cs) simp_all
  ultimately show ?thesis by simp
qed

text \<open>
  Claim C3. When the store holds a finite tree \<open>t\<close> below a node (its \<open>children\<close> references
  are acyclic) and the interpreter grants one stack frame per level of \<open>t\<close>,
  \<open>get_descendants()\<close> on that node returns the nodes of \<open>t\<close> in depth-first order without the
  node itself, which does not occur in the result; their number is the number of nodes of
  \<open>t\<close> minus one. In particular, when the children of the root \<open>r\<close> are all the other nodes
  \<open>cs\<close> and none of them has children, the result is \<open>cs\<close>, of length the node count minus
  one.
\<close>

theorem get_descendants_subtree:
  "(shape h t \<and> height t \<le> d \<longrightarrow>
      get_descendants d h (root t) = Inr (tl (preorder t)) \<and>
      preorder t = root t # tl (preorder t) \<and>
      root t \<notin> set (tl (preorder t)) \<and>
      length (tl (preorder t)) = length (preorder t) - 1) \<and>
   (children (h r) = cs \<and> (\<forall>c\<in>set cs. children (h c) = []) \<and> 2 \<le> d \<longrightarrow>
      get_descendants d h r = Inr cs \<and> length cs = length (r # cs) - 1)"
proof (intro conjI impI)
  assume a: "shape h t \<and> height t \<le> d"
  then show "get_descendants d h (root t) = Inr (tl (preorder t))"
    by (simp add: get_descendants_shape)
  from a show "root t \<notin> set (tl (preorder t))" using root_not_below [of h t] by blast
  show "preorder t = root t # tl (preorder t)" by (cases t) simp
  show "length (tl (preorder t)) = length (preorder t) - 1" by simp
next
  assume b: "children (h r) = cs \<and> (\<forall>c\<in>set cs. children (h c) = []) \<and> 2 \<le> d"
  then obtain d' where d: "d = Suc (Suc d')"
    by (metis Suc_le_D numeral_2_eq_2 Suc_le_mono)
  from b have "children (h r) = cs" "\<forall>c\<in>set cs. children (h c) = []" by simp_all
  then show "get_descendants d h r = Inr cs" unfolding d by (rule get_descendants_star)
  show "length cs = length (r # cs) - 1" by simp
qed


theorem get_descendants_subtree_witness:
  "shape h_tree t_tree \<and> height t_tree \<le> 3 \<and> preorder t_tree = [0, 1, 3, 2] \<and>
   get_descendants 3 h_tree 0 = Inr [1, 3, 2] \<and>
   children (h_star 0) = [1, 2, 3] \<and> get_descendants 2 h_star 0 = Inr [1, 2, 3]"
proof -
  have s: "shape h_tree t_tree \<and> height t_tree \<le> 3"
    by (simp add: h_tree_def t_tree_def linked_def)
  have p: "preorder t_tree = [0, 1, 3, 2]" "root t_tree = 0"
    by (simp_all add: t_tree_def)
  have c: "children (h_star 0) = [1, 2, 3] \<and> (\<forall>c\<in>set [1, 2, 3]. children (h_star c) = []) \<and> (2::nat) \<le> 2"
    by (simp add: h_star_def linked_def)
  have 1: "get_descendants 3 h_tree 0 = Inr [1, 3, 2]"
    using s p get_descendants_subtree
        [where h = h_tree and t = t_tree and d = 3 and r = 0 and cs = "[]"]
    by simp
  have 2: "get_descendants 2 h_star 0 = Inr [1, 2, 3]"
    using c get_descendants_subtree
        [where h = h_star and t = "NT 0 []" and d = 2 and r = 0 and cs = "[1, 2, 3]"]
    by blast
  from s p(1) c 1 2 show ?thesis by blast
qed

subsection \<open>get\_ancestors\<close>

text \<open>The loop appends the chain of ancestors to what it has collected.\<close>

lemma loop_chain:
  "ancestor_chain h a ps \<Longrightarrow> get_ancestors_loop h a nodes = Some (nodes @ ps)"
proof (induction ps arbitrary: a nodes)
  case Nil
  then show ?case by (subst get_ancestors_loop.simps) simp
next
  case (Cons p ps)
  then have "get_ancestors_loop h p (nodes @ [p]) = Some ((nodes @ [p]) @ ps)" by simp
  with Cons.prems show ?case by (subst get_ancestors_loop.simps) simp
qed

text \<open>Whatever the loop returns is such a chain: it returns only when one exists.\<close>

lemma loop_returns_chain:
  assumes "get_ancestors_loop h a nodes = Some r"
  shows "\<exists>ps. r = nodes @ ps \<and> ancestor_chain h a ps"
proof (rule get_ancestors_loop.raw_induct
    [where P = "\<lambda>h a nodes r. \<exists>ps. r = nodes @ ps \<and> ancestor_chain h a ps", OF _ assms])
  fix f :: "heap \<Rightarrow> addr \<Rightarrow> addr list \<Rightarrow> addr list option" and h a nodes r
  assume IH: "\<And>h' a' nodes' r'. f h' a' nodes' = Some r' \<Longrightarrow>
      \<exists>ps. r' = nodes' @ ps \<and> ancestor_chain h' a' ps"
    and eq: "(case parent (h a) of None \<Rightarrow> Some nodes | Some p \<Rightarrow> f h p (nodes @ [p])) = Some r"
  show "\<exists>ps. r = nodes @ ps \<and> ancestor_chain h a ps"
  proof (cases "parent (h a)")
    case None
    with eq show ?thesis by (intro exI [of _ "[]"]) simp
  next
    case (Some p)
    with eq have "f h p (nodes @ [p]) = Some r" by simp
    then obtain ps where "r = (nodes @ [p]) @ ps" "ancestor_chain h p ps" using IH by blast
    with Some show ?thesis by (intro exI [of _ "p # ps"]) simp
  qed
qed

lemma get_ancestors_iff: "get_ancestors h a = Some ps \<longleftrightarrow> ancestor_chain h a ps"
proof
  assume "get_ancestors h a = Some ps"
  then show "ancestor_chain h a ps"
    using loop_returns_chain [of h a "[]" ps] by (simp add: get_ancestors_def)
next
  assume "ancestor_chain h a ps"
  then show "get_ancestors h a = Some ps"
    using loop_chain [of h a ps "[]"] by (simp add: get_ancestors_def)
qed

lemma chain_unique: "ancestor_chain h a ps \<Longrightarrow> ancestor_chain h a qs \<Longrightarrow> ps = qs"
proof (induction ps arbitrary: a qs)
  case Nil
  then show ?case by (cases qs) auto
next
  case (Cons p ps)
  then show ?case by (cases qs) auto
qed

lemma chain_suffix: "ancestor_chain h a (xs @ b # ys) \<Longrightarrow> ancestor_chain h b ys"
  by (induction xs arbitrary: a) auto

text \<open>A node is not among its own ancestors.\<close>

lemma chain_not_self:
  assumes "ancestor_chain h a ps"
  shows "a \<notin> set ps"
proof
  assume "a \<in> set ps"
  then obtain xs ys where ps: "ps = xs @ a # ys" by (auto simp: in_set_conv_decomp)
  with assms have "ancestor_chain h a ys" using chain_suffix by blast
  with assms have "ps = ys" by (rule chain_unique)
  with ps show False by simp
qed

text \<open>The walk stops at the first node without a parent: the last one of the chain.\<close>

lemma chain_last: "ancestor_chain h a ps \<Longrightarrow> parent (h (last (a # ps))) = None"
  by (induction ps arbitrary: a) auto

lemma chain_butlast: "ancestor_chain h a ps \<Longrightarrow> x \<in> set (butlast (a # ps)) \<Longrightarrow> parent (h x) \<noteq> None"
  by (induction ps arbitrary: a) (auto split: if_splits)

text \<open>
  Acyclic \<open>parent\<close> references within a finite set of nodes give every node of the set a
  finite chain of ancestors.
\<close>

lemma acyclic_parent_chain:
  assumes fin: "finite N"
    and closed: "\<And>x p. x \<in> N \<Longrightarrow> parent (h x) = Some p \<Longrightarrow> p \<in> N"
    and acyc: "acyclic {(p, x). x \<in> N \<and> parent (h x) = Some p}"
    and a: "a \<in> N"
  shows "\<exists>ps. ancestor_chain h a ps"
proof -
  let ?r = "{(p, x). x \<in> N \<and> parent (h x) = Some p}"
  have "?r \<subseteq> N \<times> N" using closed by auto
  then have "finite ?r" using fin by (meson finite_SigmaI finite_subset)
  then have "wf ?r" using acyc by (simp add: finite_acyclic_wf)
  then show ?thesis using a
  proof (induction a rule: wf_induct_rule)
    case (less x)
    show ?case
    proof (cases "parent (h x)")
      case None
      then show ?thesis by (intro exI [of _ "[]"]) simp
    next
      case (Some p)
      with less.prems have "(p, x) \<in> ?r" "p \<in> N" using closed by auto
      then obtain ps where "ancestor_chain h p ps" using less.IH by blast
      with Some show ?thesis by (intro exI [of _ "p # ps"]) simp
    qed
  qed
qed

text \<open>On a cycle of \<open>parent\<close> references the loop does not return.\<close>

lemma get_ancestors_cycle: "get_ancestors h_cycle 0 = None"
proof (cases "get_ancestors h_cycle 0")
  case None
  then show ?thesis .
next
  case (Some ps)
  then have "ancestor_chain h_cycle 0 ps" by (simp add: get_ancestors_iff)
  then have "0 \<notin> set ps" by (rule chain_not_self)
  moreover from \<open>ancestor_chain h_cycle 0 ps\<close> have "0 \<in> set ps"
    by (cases ps) (simp_all add: h_cycle_def linked_def)
  ultimately show ?thesis by simp
qed

text \<open>
  Claim C4. When the \<open>parent\<close> references above a node form the finite chain
  \<open>ps = [parent, grandparent, ..., root]\<close> (they are acyclic), \<open>get_ancestors()\<close> returns
  exactly \<open>ps\<close>, the nearest ancestor first; the node itself is not in it; the walk ends at
  the first node whose \<open>parent\<close> is unset, every node before it having a parent. On a node
  whose \<open>parent\<close> is unset the result is the empty list.
\<close>

theorem get_ancestors_chain:
  "(ancestor_chain h a ps \<longrightarrow>
      get_ancestors h a = Some ps \<and> a \<notin> set ps \<and>
      parent (h (last (a # ps))) = None \<and>
      (\<forall>x\<in>set (butlast (a # ps)). parent (h x) \<noteq> None)) \<and>
   (parent (h a) = None \<longrightarrow> get_ancestors h a = Some [])"
proof (intro conjI impI ballI)
  assume c: "ancestor_chain h a ps"
  then show "get_ancestors h a = Some ps" by (simp add: get_ancestors_iff)
  from c show "a \<notin> set ps" by (rule chain_not_self)
  from c show "parent (h (last (a # ps))) = None" by (rule chain_last)
  fix x assume "x \<in> set (butlast (a # ps))"
  with c show "parent (h x) \<noteq> None" by (rule chain_butlast)
next
  assume "parent (h a) = None"
  then have "ancestor_chain h a []" by simp
  then show "get_ancestors h a = Some []" by (simp only: get_ancestors_iff)
qed

theorem get_ancestors_chain_witness:
  "ancestor_chain h_tree 3 [1, 0] \<and> get_ancestors h_tree 3 = Some [1, 0] \<and>
   parent (h_tree 0) = None \<and> get_ancestors h_tree 0 = Some []"
proof -
  have c: "ancestor_chain h_tree 3 [1, 0]" "parent (h_tree 0) = None"
    by (simp_all add: h_tree_def linked_def)
  have 1: "get_ancestors h_tree 3 = Some [1, 0]"
    using c(1) get_ancestors_chain [where h = h_tree and a = 3 and ps = "[1, 0]"] by blast
  have 2: "get_ancestors h_tree 0 = Some []"
    using c(2) get_ancestors_chain [where h = h_tree and a = 0 and ps = "[]"] by blast
  from c 1 2 show ?thesis by blast
qed

section \<open>Properties of menus/utils.py\<close>

subsection \<open>get\_page\_path\<close>

text \<open>\<open>get_page_path\<close> reads the request only, and not the resolver.\<close>

lemma get_page_path_memo [simp]:
  "get_page_path e (self\<lparr>app_path_memo := m\<rparr>) l = get_page_path e self l"
  by (simp add: get_page_path_def)

lemma get_page_path_reverse [simp]:
  "get_page_path (e\<lparr>reverse := r\<rparr>) self l = get_page_path e self l"
  by (simp add: get_page_path_def cong: option.case_cong sum.case_cong if_cong)

lemma app_path_reverse [simp]: "app_path (e\<lparr>reverse := r\<rparr>) self = app_path e self"
  by (simp add: app_path_def Let_def split: option.splits)

lemma page_path_and_app_path_reverse [simp]:
  "page_path_and_app_path (e\<lparr>reverse := r\<rparr>) self l = page_path_and_app_path e self l"
  by (simp add: page_path_and_app_path_def split: sum.splits)

lemma call_no_strategy:
  "no_strategy_url e self lang \<Longrightarrow>
   DefaultLanguageChanger_call e self lang = page_path_and_app_path e self lang"
  by (auto simp: no_strategy_url_def DefaultLanguageChanger_call_def Let_def isl_def
      split: option.splits sum.splits)

lemma app_path_first:
  "app_path_memo self = None \<Longrightarrow> get_page_path e self (current_language_code e self) = Inr pp \<Longrightarrow>
   app_path e self =
     (Inr (drop (length pp) (path_info (request self))),
      self\<lparr>app_path_memo := Some (drop (length pp) (path_info (request self)))\<rparr>)"
  by (cases "pp = []") (auto simp: app_path_def Let_def current_language_code_def)

lemma app_path_memo_after:
  "app_path e self = (r, self') \<Longrightarrow>
   \<exists>s. app_path_memo self' = Some s \<and> (\<forall>x. r = Inr x \<longrightarrow> x = s) \<and> request self' = request self"
  by (auto simp: app_path_def Let_def split: option.splits sum.splits if_splits)

lemma app_path_hit:
  "app_path_memo self = Some s \<Longrightarrow> app_path e self = (Inr s, self)"
  by (simp add: app_path_def)

lemma get_page_path_page:
  assumes "current_page (request self) = Some pg"
  shows "get_page_path e self lang =
     (case get_absolute_url pg lang lang False of
        Inr u \<Rightarrow> Inr u
      | Inl x \<Rightarrow>
          if x = TitleDoesNotExist \<or> x = NoReverseMatch then
            (if hide_untranslated e lang \<and> USE_I18N e then Inr (language_root lang)
             else get_absolute_url pg lang lang True)
          else Inl x)"
  using assms by (simp add: get_page_path_def)

lemma get_page_path_no_page:
  assumes "current_page (request self) = None"
  shows "get_page_path e self lang = Inr (if USE_I18N e then language_root lang else ''/'')"
  using assms by (simp add: get_page_path_def)

text \<open>
  Claim C1, as amended. For a request with a current page: when the page has a URL in the
  target language, \<open>get_page_path(lang)\<close> returns it; when the exact lookup raises
  \<open>Title.DoesNotExist\<close> or \<open>NoReverseMatch\<close> and both \<open>hide_untranslated(lang)\<close> and
  \<open>settings.USE_I18N\<close> hold, it returns the language root \<open>/lang/\<close>; when the exact lookup
  raises one of the two and \<open>hide_untranslated(lang)\<close> or \<open>USE_I18N\<close> is false, it returns
  what the lookup with \<open>fallback=True\<close> gives.
\<close>

theorem get_page_path_translated_or_root:
  assumes "current_page (request self) = Some pg"
  shows "(get_absolute_url pg lang lang False = Inr u \<longrightarrow> get_page_path e self lang = Inr u) \<and>
         (get_absolute_url pg lang lang False = Inl x \<and> (x = TitleDoesNotExist \<or> x = NoReverseMatch) \<and>
          hide_untranslated e lang \<and> USE_I18N e \<longrightarrow>
            get_page_path e self lang = Inr (''/'' @ lang @ ''/'')) \<and>
         (get_absolute_url pg lang lang False = Inl x \<and> (x = TitleDoesNotExist \<or> x = NoReverseMatch) \<and>
          \<not> (hide_untranslated e lang \<and> USE_I18N e) \<longrightarrow>
            get_page_path e self lang = get_absolute_url pg lang lang True)"
  by (simp add: get_page_path_page [OF assms] language_root_def)

text \<open>
  The claim as stated asks for the language root whenever untranslated pages are hidden.
  On the site with \<open>USE_I18N\<close> off, untranslated pages are hidden for English and the exact
  lookup of the page without an English title raises, yet the result is the fallback URL
  and not \<open>/en/\<close>.
\<close>

theorem get_page_path_hide_untranslated_counterexample:
  "current_page (request (DefaultLanguageChanger_init (req_page page_german_only ''/seite/'')))
     = Some page_german_only \<and>
   get_absolute_url page_german_only ''en'' ''en'' False = Inl TitleDoesNotExist \<and>
   get_absolute_url page_german_only ''en'' ''en'' True = Inr ''/seite/'' \<and>
   hide_untranslated env_no_i18n ''en'' \<and>
   get_page_path env_no_i18n (DefaultLanguageChanger_init (req_page page_german_only ''/seite/''))
     ''en'' = Inr ''/seite/'' \<and>
   get_page_path env_no_i18n (DefaultLanguageChanger_init (req_page page_german_only ''/seite/''))
     ''en'' \<noteq> Inr ''/en/''"
  by (simp add: get_page_path_def DefaultLanguageChanger_init_def req_page_def
      page_german_only_def env_no_i18n_def env_plain_def)

theorem get_page_path_translated_or_root_witness:
  "get_page_path env_plain (DefaultLanguageChanger_init (req_page page_translated ''/en/page/''))
     ''de'' = Inr ''/de/seite/'' \<and>
   get_page_path env_plain (DefaultLanguageChanger_init (req_page page_untranslated ''/en/page/''))
     ''de'' = Inr ''/de/'' \<and>
   get_page_path env_no_i18n (DefaultLanguageChanger_init (req_page page_german_only ''/seite/''))
     ''en'' = Inr ''/seite/''"
proof -
  let ?t = "DefaultLanguageChanger_init (req_page page_translated ''/en/page/'')"
  let ?u = "DefaultLanguageChanger_init (req_page page_untranslated ''/en/page/'')"
  let ?v = "DefaultLanguageChanger_init (req_page page_german_only ''/seite/'')"
  have t: "current_page (request ?t) = Some page_translated"
    and u: "current_page (request ?u) = Some page_untranslated"
    and v: "current_page (request ?v) = Some page_german_only"
    by (simp_all add: DefaultLanguageChanger_init_def req_page_def)
  have "get_absolute_url page_translated ''de'' ''de'' False = Inr ''/de/seite/''"
    by (simp add: page_translated_def)
  then have 1: "get_page_path env_plain ?t ''de'' = Inr ''/de/seite/''"
    using get_page_path_translated_or_root
      [OF t, where lang = "''de''" and u = "''/de/seite/''" and x = TitleDoesNotExist
        and e = env_plain]
    by simp
  have x: "get_absolute_url page_untranslated ''de'' ''de'' False = Inl TitleDoesNotExist"
    by (simp add: page_untranslated_def)
  have "hide_untranslated env_plain ''de'' \<and> USE_I18N env_plain" by (simp add: env_plain_def)
  then have 2: "get_page_path env_plain ?u ''de'' = Inr ''/de/''"
    using x get_page_path_translated_or_root
      [OF u, where lang = "''de''" and u = "[]" and x = TitleDoesNotExist and e = env_plain]
    by simp
  have y: "get_absolute_url page_german_only ''en'' ''en'' False = Inl TitleDoesNotExist"
    "get_absolute_url page_german_only ''en'' ''en'' True = Inr ''/seite/''"
    by (simp_all add: page_german_only_def)
  have "\<not> USE_I18N env_no_i18n" by (simp add: env_no_i18n_def env_plain_def)
  then have 3: "get_page_path env_no_i18n ?v ''en'' = Inr ''/seite/''"
    using y get_page_path_translated_or_root
      [OF v, where lang = "''en''" and u = "[]" and x = TitleDoesNotExist and e = env_no_i18n]
    by simp
  from 1 2 3 show ?thesis by simp
qed

subsection \<open>The strategies of a call\<close>

lemma call_toolbar:
  assumes "toolbar_object (request self) = Some ob"
  shows "DefaultLanguageChanger_call e self lang =
     (case obj_get_absolute_url ob lang of
        Inr u \<Rightarrow> (Inr u, self)
      | Inl x \<Rightarrow> page_path_and_app_path e self lang)"
  using assms by (simp add: DefaultLanguageChanger_call_def Let_def)

lemma call_view:
  assumes "toolbar_object (request self) = None"
    and "resolve e (get_language_from_request e (request self)) (path_info (request self)) = Inr v"
  shows "DefaultLanguageChanger_call e self lang =
     (if url_name v \<noteq> Some ''pages-details-by-slug'' \<and> url_name v \<noteq> Some ''pages-root'' then
        (case reverse e lang (view_name_of v) (args v) (kwargs v) (app_name v) of
           Inr u \<Rightarrow> (Inr u, self)
         | Inl x \<Rightarrow>
             if x = NoReverseMatch then page_path_and_app_path e self lang else (Inl x, self))
      else page_path_and_app_path e self lang)"
  using assms by (simp add: DefaultLanguageChanger_call_def Let_def)

lemma call_unresolved:
  assumes "toolbar_object (request self) = None"
    and "resolve e (get_language_from_request e (request self)) (path_info (request self)) = Inl x"
  shows "DefaultLanguageChanger_call e self lang = page_path_and_app_path e self lang"
  using assms by (simp add: DefaultLanguageChanger_call_def Let_def)

lemma call_reverse_unused:
  assumes "toolbar_object (request self) = Some ob \<or>
     (\<exists>v. resolve e (get_language_from_request e (request self)) (path_info (request self)) = Inr v \<and>
        (url_name v = Some ''pages-details-by-slug'' \<or> url_name v = Some ''pages-root''))"
  shows "DefaultLanguageChanger_call (e\<lparr>reverse := r\<rparr>) self lang = DefaultLanguageChanger_call e self lang"
  using assms
  by (auto simp: DefaultLanguageChanger_call_def Let_def split: option.splits sum.splits)

text \<open>
  Claim C5, as amended. For a request whose path resolves to a view: when the toolbar holds
  no object (or the request has no toolbar), the call reverses the view's name (prefixed by
  its namespace, with its args, kwargs and app name) under the target language exactly when
  the view's \<open>url_name\<close> is neither \<open>pages-details-by-slug\<close> nor \<open>pages-root\<close>, returning the
  reversed URL, going on to the concatenation of line 104 on \<open>NoReverseMatch\<close>; for the two
  reserved names, and whenever the toolbar holds an object, \<open>reverse\<close> plays no part in the
  result. Whether the request has a current page does not enter.
\<close>

theorem view_reversal_gate:
  assumes "resolve e (get_language_from_request e (request self)) (path_info (request self)) = Inr v"
  shows "(toolbar_object (request self) = None \<and>
          url_name v \<noteq> Some ''pages-details-by-slug'' \<and> url_name v \<noteq> Some ''pages-root'' \<longrightarrow>
            DefaultLanguageChanger_call e self lang =
              (case reverse e lang (view_name_of v) (args v) (kwargs v) (app_name v) of
                 Inr u \<Rightarrow> (Inr u, self)
               | Inl x \<Rightarrow>
                   if x = NoReverseMatch then page_path_and_app_path e self lang
                   else (Inl x, self))) \<and>
         (toolbar_object (request self) = None \<and>
          (url_name v = Some ''pages-details-by-slug'' \<or> url_name v = Some ''pages-root'') \<longrightarrow>
            DefaultLanguageChanger_call e self lang = page_path_and_app_path e self lang \<and>
            DefaultLanguageChanger_call (e\<lparr>reverse := r\<rparr>) self lang =
              DefaultLanguageChanger_call e self lang) \<and>
         (toolbar_object (request self) = Some ob \<longrightarrow>
            DefaultLanguageChanger_call e self lang =
              (case obj_get_absolute_url ob lang of
                 Inr u \<Rightarrow> (Inr u, self)
               | Inl x \<Rightarrow> page_path_and_app_path e self lang) \<and>
            DefaultLanguageChanger_call (e\<lparr>reverse := r\<rparr>) self lang =
              DefaultLanguageChanger_call e self lang)"
proof (intro conjI impI)
  assume "toolbar_object (request self) = None \<and>
          url_name v \<noteq> Some ''pages-details-by-slug'' \<and> url_name v \<noteq> Some ''pages-root''"
  then show "DefaultLanguageChanger_call e self lang =
              (case reverse e lang (view_name_of v) (args v) (kwargs v) (app_name v) of
                 Inr u \<Rightarrow> (Inr u, self)
               | Inl x \<Rightarrow>
                   if x = NoReverseMatch then page_path_and_app_path e self lang
                   else (Inl x, self))"
    using call_view [of self e v lang] assms by simp
next
  assume a: "toolbar_object (request self) = None \<and>
          (url_name v = Some ''pages-details-by-slug'' \<or> url_name v = Some ''pages-root'')"
  then show "DefaultLanguageChanger_call e self lang = page_path_and_app_path e self lang"
    using call_view [of self e v lang] assms by auto
  from a assms show "DefaultLanguageChanger_call (e\<lparr>reverse := r\<rparr>) self lang =
              DefaultLanguageChanger_call e self lang"
    by (intro call_reverse_unused) blast
next
  assume a: "toolbar_object (request self) = Some ob"
  then show "DefaultLanguageChanger_call e self lang =
              (case obj_get_absolute_url ob lang of
                 Inr u \<Rightarrow> (Inr u, self)
               | Inl x \<Rightarrow> page_path_and_app_path e self lang)"
    by (rule call_toolbar)
  from a show "DefaultLanguageChanger_call (e\<lparr>reverse := r\<rparr>) self lang =
              DefaultLanguageChanger_call e self lang"
    by (intro call_reverse_unused) blast
qed

text \<open>
  The claim as stated lets the reversal depend on the view name alone when there is no
  page. The request of the shop has no current page, its view is \<open>product_view\<close> and
  \<open>reverse\<close> would give \<open>/de/shop/7/\<close>; the toolbar holds the product (not a page), so the
  call returns the product's own URL and the view is not reversed.
\<close>

theorem view_reversal_toolbar_counterexample:
  "current_page req_product = None \<and>
   resolve env_shop (get_language_from_request env_shop req_product) (path_info req_product)
     = Inr view_product \<and>
   url_name view_product = Some ''product_view'' \<and>
   reverse env_shop ''de'' (view_name_of view_product) (args view_product) (kwargs view_product)
     (app_name view_product) = Inr ''/de/shop/7/'' \<and>
   fst (DefaultLanguageChanger_call env_shop (DefaultLanguageChanger_init req_product) ''de'')
     = Inr ''/de/products/7/''"
  by (simp add: req_product_def env_shop_def env_plain_def view_product_def view_name_of_def
      DefaultLanguageChanger_call_def DefaultLanguageChanger_init_def toolbar_object_def)

theorem view_reversal_gate_witness:
  "toolbar_object req_shop = None \<and>
   resolve env_shop (get_language_from_request env_shop req_shop) (path_info req_shop)
     = Inr view_product \<and>
   fst (DefaultLanguageChanger_call env_shop (DefaultLanguageChanger_init req_shop) ''de'')
     = Inr ''/de/shop/7/'' \<and>
   resolve env_pages (get_language_from_request env_pages req_shop) (path_info req_shop)
     = Inr view_page \<and>
   fst (DefaultLanguageChanger_call env_pages (DefaultLanguageChanger_init req_shop) ''de'')
     = Inr ''/de/shop/7/'' \<and>
   fst (DefaultLanguageChanger_call env_shop (DefaultLanguageChanger_init req_product) ''de'')
     = Inr ''/de/products/7/''"
proof -
  let ?s = "DefaultLanguageChanger_init req_shop"
  let ?p = "DefaultLanguageChanger_init req_product"
  have r: "request ?s = req_shop" "request ?p = req_product"
    by (simp_all add: DefaultLanguageChanger_init_def)
  have t: "toolbar_object req_shop = None"
    "toolbar_object req_product = Some (ToolbarObj (\<lambda>active. Inr (''/'' @ active @ ''/products/7/'')))"
    by (simp_all add: toolbar_object_def req_shop_def req_product_def)
  have v: "resolve env_shop (get_language_from_request env_shop req_shop) (path_info req_shop)
     = Inr view_product"
    "resolve env_shop (get_language_from_request env_shop req_product) (path_info req_product)
     = Inr view_product"
    "resolve env_pages (get_language_from_request env_pages req_shop) (path_info req_shop)
     = Inr view_page"
    by (simp_all add: env_shop_def env_pages_def env_plain_def)
  have n: "url_name view_product = Some ''product_view''"
    "url_name view_page = Some ''pages-details-by-slug''"
    by (simp_all add: view_product_def view_page_def)
  have rev: "reverse env_shop ''de'' (view_name_of view_product) (args view_product)
      (kwargs view_product) (app_name view_product) = Inr ''/de/shop/7/''"
    by (simp add: env_shop_def env_plain_def view_product_def view_name_of_def)
  have pp: "page_path_and_app_path env_pages ?s ''de'' = (Inr ''/de/shop/7/'', ?s\<lparr>app_path_memo := Some ''shop/7/''\<rparr>)"
    by (simp add: page_path_and_app_path_def get_page_path_def app_path_def env_pages_def env_plain_def
        DefaultLanguageChanger_init_def req_shop_def language_root_def Let_def)
  have 1: "fst (DefaultLanguageChanger_call env_shop ?s ''de'') = Inr ''/de/shop/7/''"
    using view_reversal_gate [where e = env_shop and self = ?s and v = view_product and lang = "''de''"
        and ob = "ToolbarObj (\<lambda>a. Inr a)" and r = "reverse env_shop"]
      r t v n rev by simp
  have 2: "fst (DefaultLanguageChanger_call env_pages ?s ''de'') = Inr ''/de/shop/7/''"
    using view_reversal_gate [where e = env_pages and self = ?s and v = view_page and lang = "''de''"
        and ob = "ToolbarObj (\<lambda>a. Inr a)" and r = "reverse env_shop"]
      r t v n pp by simp
  have 3: "fst (DefaultLanguageChanger_call env_shop ?p ''de'') = Inr ''/de/products/7/''"
    using view_reversal_gate [where e = env_shop and self = ?p and v = view_product and lang = "''de''"
        and ob = "ToolbarObj (\<lambda>active. Inr (''/'' @ active @ ''/products/7/''))" and r = "reverse env_shop"]
      r t v by simp
  from t(1) v(1,3) 1 2 3 show ?thesis by blast
qed

subsection \<open>Errors of a call\<close>

text \<open>
  \<open>get_page_path\<close> raises exactly when line 76 runs and raises, or the exact lookup raises
  an error that line 73 does not catch.
\<close>

lemma get_page_path_raises_iff:
  "get_page_path e self l = Inl x \<longleftrightarrow> line_76_raises e self l x \<or> line_72_raises_uncaught self l x"
  by (auto simp: get_page_path_def fallback_lookup_runs_def line_76_raises_def
      line_72_raises_uncaught_def split: option.splits sum.splits if_splits)

lemma app_path_raises_iff:
  "fst (app_path e self) = Inl x \<longleftrightarrow>
     app_path_memo self = None \<and> get_page_path e self (current_language_code e self) = Inl x"
  by (auto simp: app_path_def Let_def current_language_code_def
      split: option.splits sum.splits if_splits)

lemma page_path_and_app_path_raises_iff:
  "fst (page_path_and_app_path e self lang) = Inl x \<longleftrightarrow>
     get_page_path e self lang = Inl x \<or>
     (\<not> isl (get_page_path e self lang) \<and> fst (app_path e self) = Inl x)"
proof (cases "get_page_path e self lang")
  case (Inl y)
  then show ?thesis by (simp add: page_path_and_app_path_def)
next
  case (Inr p)
  obtain r self' where a: "app_path e self = (r, self')" by (cases "app_path e self")
  with Inr show ?thesis by (cases r) (simp_all add: page_path_and_app_path_def)
qed

lemma call_raises_line_104:
  "no_strategy_url e self lang \<Longrightarrow> \<not> line_101_raises_uncaught e self lang x"
  by (auto simp: no_strategy_url_def line_101_raises_uncaught_def
      split: option.splits sum.splits)

lemma call_raises_early:
  assumes "\<not> no_strategy_url e self lang"
  shows "fst (DefaultLanguageChanger_call e self lang) = Inl x \<longleftrightarrow>
         line_101_raises_uncaught e self lang x"
  using assms
  by (auto simp: no_strategy_url_def line_101_raises_uncaught_def
      DefaultLanguageChanger_call_def Let_def isl_def
      split: option.splits sum.splits if_splits)

lemma call_raises_iff:
  "fst (DefaultLanguageChanger_call e self lang) = Inl x \<longleftrightarrow> call_raises e self lang x"
proof (cases "no_strategy_url e self lang")
  case True
  then have "DefaultLanguageChanger_call e self lang = page_path_and_app_path e self lang"
    by (rule call_no_strategy)
  with True show ?thesis
    by (simp add: call_raises_def call_raises_line_104 page_path_and_app_path_raises_iff
        app_path_raises_iff get_page_path_raises_iff)
next
  case False
  then show ?thesis by (simp add: call_raises_def call_raises_early)
qed

text \<open>
  Claim C2, as amended. \<open>Title.DoesNotExist\<close> and \<open>NoReverseMatch\<close> raised by the exact
  lookup (\<open>fallback=False\<close>), \<open>NoReverseMatch\<close> raised by \<open>reverse\<close>, and every error of
  \<open>resolve\<close> and of the toolbar object's URL are caught and the next strategy is tried. A
  call propagates one of the two errors in these cases and no other: line 104 is reached
  and the unguarded lookup with \<open>fallback=True\<close> of line 76 runs and raises it, for the
  target language or, while \<open>app_path\<close> is first computed, for the current language; or the
  \<open>reverse\<close> of line 101 raises \<open>Title.DoesNotExist\<close>. In general a call raises exactly the
  errors raised and not caught at the lines 72, 76 and 101 that it runs, and returns a URL
  string exactly when there is none.
\<close>

theorem call_catches_guarded_errors:
  "(fst (DefaultLanguageChanger_call e self lang) = Inl x \<longleftrightarrow> call_raises e self lang x) \<and>
   (x = TitleDoesNotExist \<or> x = NoReverseMatch \<longrightarrow>
      (fst (DefaultLanguageChanger_call e self lang) = Inl x \<longleftrightarrow>
         (no_strategy_url e self lang \<and>
          (line_76_raises e self lang x \<or>
           (\<not> isl (get_page_path e self lang) \<and> app_path_memo self = None \<and>
            line_76_raises e self (current_language_code e self) x))) \<or>
         (x = TitleDoesNotExist \<and> line_101_raises_uncaught e self lang x))) \<and>
   ((\<exists>u. fst (DefaultLanguageChanger_call e self lang) = Inr u) \<longleftrightarrow>
      (\<forall>y. \<not> call_raises e self lang y))"
proof (intro conjI impI)
  show a: "fst (DefaultLanguageChanger_call e self lang) = Inl x \<longleftrightarrow> call_raises e self lang x"
    by (rule call_raises_iff)
  show "(\<exists>u. fst (DefaultLanguageChanger_call e self lang) = Inr u) \<longleftrightarrow>
      (\<forall>y. \<not> call_raises e self lang y)"
    by (cases "fst (DefaultLanguageChanger_call e self lang)")
      (auto simp: call_raises_iff [symmetric])
  assume x: "x = TitleDoesNotExist \<or> x = NoReverseMatch"
  then have u: "\<not> line_72_raises_uncaught self l x" for l
    by (auto simp: line_72_raises_uncaught_def split: option.splits)
  have r: "line_101_raises_uncaught e self lang x \<longleftrightarrow>
      x = TitleDoesNotExist \<and> line_101_raises_uncaught e self lang x"
    using x by (auto simp: line_101_raises_uncaught_def)
  show "fst (DefaultLanguageChanger_call e self lang) = Inl x \<longleftrightarrow>
         (no_strategy_url e self lang \<and>
          (line_76_raises e self lang x \<or>
           (\<not> isl (get_page_path e self lang) \<and> app_path_memo self = None \<and>
            line_76_raises e self (current_language_code e self) x))) \<or>
         (x = TitleDoesNotExist \<and> line_101_raises_uncaught e self lang x)"
    unfolding a call_raises_def using u r by blast
qed

text \<open>
  The claim as stated says that a call never propagates \<open>NoReverseMatch\<close>. For a page whose
  URL pattern is missing, on a site that shows untranslated pages, the exact lookup raises
  \<open>NoReverseMatch\<close>, the handler asks again with \<open>fallback=True\<close>, that lookup raises
  \<open>NoReverseMatch\<close> too, and the call propagates it.
\<close>

theorem call_propagates_fallback_error_counterexample:
  "fst (DefaultLanguageChanger_call env_show
          (DefaultLanguageChanger_init (req_page page_unroutable ''/en/page/'')) ''de'')
     = Inl NoReverseMatch"
  by (simp add: DefaultLanguageChanger_call_def DefaultLanguageChanger_init_def req_page_def
      page_unroutable_def env_show_def env_plain_def toolbar_object_def
      page_path_and_app_path_def get_page_path_def Let_def)

text \<open>
  Three inputs. On the site that hides untranslated pages, the view of the shop resolves,
  its \<open>reverse\<close> raises \<open>NoReverseMatch\<close> and the exact lookup of the unroutable page raises
  \<open>NoReverseMatch\<close>: both are caught, line 76 does not run although the lookup with fallback
  would raise, and the call propagates nothing. On the site that shows untranslated pages,
  the exact lookup of the page without a German title raises \<open>Title.DoesNotExist\<close>, line 76
  runs and returns, and the call propagates nothing; for the unroutable page line 76 runs
  and raises, and the call propagates \<open>NoReverseMatch\<close>.
\<close>

theorem call_catches_guarded_errors_witness:
  "reverse env_unreversible ''de'' (view_name_of view_product) (args view_product)
     (kwargs view_product) (app_name view_product) = Inl NoReverseMatch \<and>
   get_absolute_url page_unroutable ''de'' ''de'' False = Inl NoReverseMatch \<and>
   get_absolute_url page_unroutable ''de'' ''de'' True = Inl NoReverseMatch \<and>
   \<not> call_raises env_unreversible
       (DefaultLanguageChanger_init (req_page page_unroutable ''/en/page/'')) ''de'' NoReverseMatch \<and>
   fst (DefaultLanguageChanger_call env_unreversible
          (DefaultLanguageChanger_init (req_page page_unroutable ''/en/page/'')) ''de'')
     \<noteq> Inl NoReverseMatch \<and>
   get_absolute_url page_untranslated ''de'' ''de'' False = Inl TitleDoesNotExist \<and>
   fallback_lookup_runs env_show page_untranslated ''de'' \<and>
   fst (DefaultLanguageChanger_call env_show
          (DefaultLanguageChanger_init (req_page page_untranslated ''/en/page/'')) ''de'')
     \<noteq> Inl TitleDoesNotExist \<and>
   line_76_raises env_show
     (DefaultLanguageChanger_init (req_page page_unroutable ''/en/page/'')) ''de'' NoReverseMatch \<and>
   fst (DefaultLanguageChanger_call env_show
          (DefaultLanguageChanger_init (req_page page_unroutable ''/en/page/'')) ''de'')
     = Inl NoReverseMatch"
proof -
  let ?a = "DefaultLanguageChanger_init (req_page page_unroutable ''/en/page/'')"
  let ?c = "DefaultLanguageChanger_init (req_page page_untranslated ''/en/page/'')"
  have xa: "reverse env_unreversible ''de'' (view_name_of view_product) (args view_product)
       (kwargs view_product) (app_name view_product) = Inl NoReverseMatch"
    "get_absolute_url page_unroutable ''de'' ''de'' False = Inl NoReverseMatch"
    "get_absolute_url page_unroutable ''de'' ''de'' True = Inl NoReverseMatch"
    by (simp_all add: env_unreversible_def env_plain_def page_unroutable_def)
  have ra: "\<not> call_raises env_unreversible ?a ''de'' NoReverseMatch"
    by (simp add: call_raises_def line_76_raises_def line_72_raises_uncaught_def
        line_101_raises_uncaught_def fallback_lookup_runs_def
        DefaultLanguageChanger_init_def req_page_def env_unreversible_def env_plain_def)
  from ra have na: "fst (DefaultLanguageChanger_call env_unreversible ?a ''de'') \<noteq> Inl NoReverseMatch"
    using call_catches_guarded_errors
      [where e = env_unreversible and self = ?a and lang = "''de''" and x = NoReverseMatch]
    by blast
  have xc: "get_absolute_url page_untranslated ''de'' ''de'' False = Inl TitleDoesNotExist"
    "fallback_lookup_runs env_show page_untranslated ''de''"
    by (simp_all add: fallback_lookup_runs_def page_untranslated_def env_show_def env_plain_def)
  have l76: "\<not> line_76_raises env_show ?c l TitleDoesNotExist" for l
    by (simp add: line_76_raises_def DefaultLanguageChanger_init_def req_page_def
        page_untranslated_def)
  have l101: "\<not> line_101_raises_uncaught env_show ?c ''de'' TitleDoesNotExist"
    by (simp add: line_101_raises_uncaught_def env_show_def env_plain_def)
  from l76 l101 have nc: "fst (DefaultLanguageChanger_call env_show ?c ''de'') \<noteq> Inl TitleDoesNotExist"
    using call_catches_guarded_errors
      [where e = env_show and self = ?c and lang = "''de''" and x = TitleDoesNotExist]
    by blast
  have rb: "line_76_raises env_show ?a ''de'' NoReverseMatch"
    by (simp add: line_76_raises_def fallback_lookup_runs_def DefaultLanguageChanger_init_def
        req_page_def page_unroutable_def env_show_def env_plain_def)
  have sb: "no_strategy_url env_show ?a ''de''"
    by (simp add: no_strategy_url_def DefaultLanguageChanger_init_def req_page_def
        toolbar_object_def env_show_def env_plain_def)
  from rb sb have vb: "fst (DefaultLanguageChanger_call env_show ?a ''de'') = Inl NoReverseMatch"
    using call_catches_guarded_errors
      [where e = env_show and self = ?a and lang = "''de''" and x = NoReverseMatch]
    by blast
  from xa ra na xc nc rb vb show ?thesis by blast
qed

subsection \<open>Line 104 and app\_path\<close>




text \<open>
  Claim C10, as amended. Whenever an access to \<open>app_path\<close> returns a value, the memo field
  holds that value afterwards, and every later access returns the same string and leaves
  the changer as it is, whatever the request has become and whatever the settings are:
  neither is read again. On a fresh changer the access returns exactly when
  \<open>get_page_path\<close> returns for the current language; it then computes \<open>path_info\<close> without
  the first \<open>len(page_path)\<close> characters and stores it; when \<open>get_page_path\<close> raises, the
  access raises the same error. What later accesses return after an access that raised is
  left open here.
\<close>

theorem app_path_memoized:
  "(app_path e self = (Inr s, self') \<longrightarrow>
      app_path_memo self' = Some s \<and>
      (\<forall>e' req'. app_path e' (self'\<lparr>request := req'\<rparr>) = (Inr s, self'\<lparr>request := req'\<rparr>))) \<and>
   (app_path_memo self = None \<and>
    get_page_path e self (current_language_code e self) = Inr pp \<longrightarrow>
      app_path e self =
        (Inr (drop (length pp) (path_info (request self))),
         self\<lparr>app_path_memo := Some (drop (length pp) (path_info (request self)))\<rparr>)) \<and>
   (app_path_memo self = None \<and>
    get_page_path e self (current_language_code e self) = Inl x \<longrightarrow>
      fst (app_path e self) = Inl x) \<and>
   (app_path_memo self = Some m \<longrightarrow> app_path e self = (Inr m, self))"
proof (intro conjI impI allI)
  assume a: "app_path e self = (Inr s, self')"
  from app_path_memo_after [OF a] show m: "app_path_memo self' = Some s" by auto
  fix e' req'
  from m show "app_path e' (self'\<lparr>request := req'\<rparr>) = (Inr s, self'\<lparr>request := req'\<rparr>)"
    by (simp add: app_path_hit)
next
  assume "app_path_memo self = None \<and>
    get_page_path e self (current_language_code e self) = Inr pp"
  then show "app_path e self =
        (Inr (drop (length pp) (path_info (request self))),
         self\<lparr>app_path_memo := Some (drop (length pp) (path_info (request self)))\<rparr>)"
    by (simp add: app_path_first)
next
  assume "app_path_memo self = None \<and>
    get_page_path e self (current_language_code e self) = Inl x"
  then show "fst (app_path e self) = Inl x" by (simp add: app_path_raises_iff)
next
  assume "app_path_memo self = Some m"
  then show "app_path e self = (Inr m, self)" by (rule app_path_hit)
qed

text \<open>
  The claim as stated makes repeated accesses idempotent on every changer. For the
  unroutable page on the site that shows untranslated pages the first access raises
  \<open>NoReverseMatch\<close>, line 58 having stored \<open>path_info\<close> before line 62 raised; the second
  access then returns \<open>/en/page/\<close>, a string the first access did not return and from
  which no page path was cut.
\<close>

theorem app_path_failed_access_counterexample:
  "app_path_memo (DefaultLanguageChanger_init (req_page page_unroutable ''/en/page/'')) = None \<and>
   fst (app_path env_show (DefaultLanguageChanger_init (req_page page_unroutable ''/en/page/'')))
     = Inl NoReverseMatch \<and>
   fst (app_path env_show
          (snd (app_path env_show
                  (DefaultLanguageChanger_init (req_page page_unroutable ''/en/page/'')))))
     = Inr ''/en/page/''"
  by (simp add: app_path_def get_page_path_def DefaultLanguageChanger_init_def req_page_def
      page_unroutable_def env_show_def env_plain_def Let_def)

theorem app_path_memoized_witness:
  "app_path env_plain (DefaultLanguageChanger_init (req_page page_translated ''/en/page/sub/''))
     = (Inr ''sub/'',
        (DefaultLanguageChanger_init (req_page page_translated ''/en/page/sub/''))
          \<lparr>app_path_memo := Some ''sub/''\<rparr>) \<and>
   fst (app_path env_no_i18n
     ((DefaultLanguageChanger_init (req_page page_translated ''/en/page/sub/''))
          \<lparr>app_path_memo := Some ''sub/'', request := req_shop\<rparr>)) = Inr ''sub/'' \<and>
   get_page_path env_show (DefaultLanguageChanger_init (req_page page_unroutable ''/en/page/''))
     (current_language_code env_show
        (DefaultLanguageChanger_init (req_page page_unroutable ''/en/page/'')))
     = Inl NoReverseMatch \<and>
   fst (app_path env_show (DefaultLanguageChanger_init (req_page page_unroutable ''/en/page/'')))
     = Inl NoReverseMatch"
proof -
  let ?c = "DefaultLanguageChanger_init (req_page page_translated ''/en/page/sub/'')"
  let ?a = "DefaultLanguageChanger_init (req_page page_unroutable ''/en/page/'')"
  have g: "get_page_path env_plain ?c (current_language_code env_plain ?c) = Inr ''/en/page/''"
    by (simp add: get_page_path_def DefaultLanguageChanger_init_def req_page_def
        page_translated_def current_language_code_def env_plain_def)
  have m: "app_path_memo ?c = None" "path_info (request ?c) = ''/en/page/sub/''"
    "app_path_memo ?a = None"
    by (simp_all add: DefaultLanguageChanger_init_def req_page_def)
  have 1: "app_path env_plain ?c = (Inr ''sub/'', ?c\<lparr>app_path_memo := Some ''sub/''\<rparr>)"
    using app_path_memoized [where e = env_plain and self = ?c and pp = "''/en/page/''"
        and s = "''sub/''" and self' = "?c\<lparr>app_path_memo := Some ''sub/''\<rparr>"
        and x = NoReverseMatch and m = "[]"] g m
    by simp
  have 2: "fst (app_path env_no_i18n (?c\<lparr>app_path_memo := Some ''sub/'', request := req_shop\<rparr>))
      = Inr ''sub/''"
    using app_path_memoized [where e = env_plain and self = ?c and pp = "''/en/page/''"
        and s = "''sub/''" and self' = "?c\<lparr>app_path_memo := Some ''sub/''\<rparr>"
        and x = NoReverseMatch and m = "[]"] 1
    by simp
  have ga: "get_page_path env_show ?a (current_language_code env_show ?a) = Inl NoReverseMatch"
    by (simp add: get_page_path_def DefaultLanguageChanger_init_def req_page_def
        page_unroutable_def current_language_code_def env_show_def env_plain_def)
  have 3: "fst (app_path env_show ?a) = Inl NoReverseMatch"
    using app_path_memoized [where e = env_show and self = ?a and pp = "[]"
        and s = "[]" and self' = ?a and x = NoReverseMatch and m = "[]"] ga m(3)
    by blast
  from 1 2 ga 3 show ?thesis by simp
qed

end
